theory Spec2Isabelle
  imports Complex_Main "HOL-Library.AList"
begin

section \<open>Values shared by the balancer and the rate limiter\<close>

text \<open>
  Go's \<open>error\<close> values. \<open>errors_New\<close> is \<open>errors.New\<close> with its message; the other
  constructors stand for the errors handed back by the libraries the program calls
  (the Redis client, \<open>net/url\<close>, \<open>io\<close>, \<open>encoding/json\<close>, \<open>time\<close>).
\<close>

datatype error =
    errors_New string
  | redis_error string
  | url_error string
  | io_error string
  | json_error string
  | time_error string

text \<open>
  \<open>time.Duration\<close> is a signed 64-bit count of nanoseconds; \<open>time.Time\<close> is taken as the
  reading of the monotonic clock in nanoseconds. The program's \<open>float64\<close> values are
  modelled by the rational numbers they denote: rounding, infinities and NaN are outside
  the model.
\<close>

type_synonym Duration = int
type_synonym Time = int

definition minDuration :: Duration where
  "minDuration = - (2 ^ 63)"

definition maxDuration :: Duration where
  "maxDuration = 2 ^ 63 - 1"

definition Seconds :: "Duration \<Rightarrow> rat" where
  \<comment> \<open>\<open>float64(d / Second) + float64(d % Second) / 1e9\<close>\<close>
  "Seconds d = of_int d / 1000000000"

definition Sub :: "Time \<Rightarrow> Time \<Rightarrow> Duration" where
  \<comment> \<open>\<open>t.Sub(u)\<close>: the difference, saturated at the ends of the Duration range\<close>
  "Sub t u = (if t - u < minDuration then minDuration
              else if maxDuration < t - u then maxDuration
              else t - u)"

section \<open>time.ParseDuration\<close>

text \<open>
  The standard library's parser of duration strings, which \<open>NextBackend\<close> applies to every
  value of the store: an optional sign, then one or more groups of decimal number (with an
  optional fraction) and unit. The string \<open>0\<close> alone is the zero duration. Every failure
  returns the duration 0 together with the error. The fractional part is computed by the
  library in \<open>float64\<close>; here it is the exact quotient, truncated.
\<close>

definition isDigit :: "char \<Rightarrow> bool" where
  "isDigit c = (48 \<le> (of_char c :: nat) \<and> (of_char c :: nat) \<le> 57)"

definition digitVal :: "char \<Rightarrow> nat" where
  "digitVal c = of_char c - 48"

definition unitMap :: "string \<rightharpoonup> nat" where
  "unitMap = map_of
     [(''ns'', 1),
      (''us'', 1000),
      ([CHR 0xC2, CHR 0xB5, CHR ''s''], 1000),
      ([CHR 0xCE, CHR 0xBC, CHR ''s''], 1000),
      (''ms'', 1000000),
      (''s'', 1000000000),
      (''m'', 60000000000),
      (''h'', 3600000000000)]"

fun leadingInt :: "nat \<Rightarrow> string \<Rightarrow> (nat \<times> string) option" where
  "leadingInt x [] = Some (x, [])"
| "leadingInt x (c # s) =
     (if \<not> isDigit c then Some (x, c # s)
      else if x > 2 ^ 63 div 10 then None
      else if x * 10 + digitVal c > 2 ^ 63 then None
      else leadingInt (x * 10 + digitVal c) s)"

fun leadingFraction :: "nat \<Rightarrow> nat \<Rightarrow> bool \<Rightarrow> string \<Rightarrow> nat \<times> nat \<times> string" where
  "leadingFraction x scale overflow [] = (x, scale, [])"
| "leadingFraction x scale overflow (c # s) =
     (if \<not> isDigit c then (x, scale, c # s)
      else if overflow then leadingFraction x scale overflow s
      else if x > (2 ^ 63 - 1) div 10 then leadingFraction x scale True s
      else if x * 10 + digitVal c > 2 ^ 63 then leadingFraction x scale True s
      else leadingFraction (x * 10 + digitVal c) (scale * 10) overflow s)"

definition unitChar :: "char \<Rightarrow> bool" where
  \<comment> \<open>the characters a unit name runs over: anything but a dot or a digit\<close>
  "unitChar c = (\<not> (c = CHR ''.'' \<or> isDigit c))"

definition invalidDuration :: error where
  "invalidDuration = time_error ''time: invalid duration''"

definition missingUnit :: error where
  "missingUnit = time_error ''time: missing unit in duration''"

definition unknownUnit :: error where
  "unknownUnit = time_error ''time: unknown unit in duration''"

text \<open>One group: the number before the dot, the fraction after it, the unit.\<close>

definition parseGroup :: "string \<Rightarrow> error + (nat \<times> string)" where
  "parseGroup s =
     (if \<not> (hd s = CHR ''.'' \<or> isDigit (hd s)) then Inl invalidDuration
      else case leadingInt 0 s of
        None \<Rightarrow> Inl invalidDuration
      | Some (v, s1) \<Rightarrow>
          let pre = (length s \<noteq> length s1);
              dot = (s1 \<noteq> [] \<and> hd s1 = CHR ''.'');
              fr = (if dot then leadingFraction 0 1 False (tl s1) else (0, 1, s1));
              f = fst fr;
              scale = fst (snd fr);
              s2 = snd (snd fr);
              post = (dot \<and> length (tl s1) \<noteq> length s2)
          in if \<not> pre \<and> \<not> post then Inl invalidDuration
             else if takeWhile unitChar s2 = [] then Inl missingUnit
             else (case unitMap (takeWhile unitChar s2) of
                     None \<Rightarrow> Inl unknownUnit
                   | Some unit \<Rightarrow>
                       if v > 2 ^ 63 div unit then Inl invalidDuration
                       else let v' = (if f > 0
                                      then v * unit +
                                        nat \<lfloor>(of_nat f :: rat) * (of_nat unit / of_nat scale)\<rfloor>
                                      else v * unit)
                            in if f > 0 \<and> v' > 2 ^ 63 then Inl invalidDuration
                               else Inr (v', dropWhile unitChar s2)))"

lemma leadingInt_length:
  "leadingInt x s = Some (v, r) \<Longrightarrow> length r \<le> length s"
  by (induction x s rule: leadingInt.induct) (auto split: if_splits)

lemma leadingFraction_length:
  "length (snd (snd (leadingFraction x sc ov s))) \<le> length s"
proof (induction x sc ov s rule: leadingFraction.induct)
  case (1 x scale overflow)
  show ?case by simp
next
  case (2 x scale overflow c s)
  show ?case
  proof (cases "isDigit c")
    case False
    then show ?thesis by simp
  next
    case d: True
    show ?thesis
    proof (cases overflow)
      case True
      with d 2(1) show ?thesis by (simp add: le_SucI)
    next
      case False
      with d 2(2,3,4) show ?thesis by (simp add: le_SucI)
    qed
  qed
qed

lemma dropWhile_shorter:
  "takeWhile P s \<noteq> [] \<Longrightarrow> length (dropWhile P s) < length s"
  by (cases s) (auto simp: le_imp_less_Suc length_dropWhile_le split: if_splits)

lemma parseGroup_shorter:
  assumes "parseGroup s = Inr (v, r)" and "s \<noteq> []"
  shows "length r < length s"
proof -
  from assms(1) obtain v0 s1 where li: "leadingInt 0 s = Some (v0, s1)"
    by (auto simp: parseGroup_def split: if_splits option.splits)
  define dot where "dot = (s1 \<noteq> [] \<and> hd s1 = CHR ''.'')"
  define s2 where
    "s2 = snd (snd (if dot then leadingFraction 0 1 False (tl s1) else (0, 1, s1)))"
  have s1: "length s1 \<le> length s"
    using li by (rule leadingInt_length)
  have "length s2 \<le> length s1"
  proof (cases dot)
    case True
    then have "length s2 \<le> length (tl s1)"
      unfolding s2_def using leadingFraction_length [of 0 1 False "tl s1"] by simp
    then show ?thesis by simp
  next
    case False
    then show ?thesis by (simp add: s2_def)
  qed
  moreover from assms(1) li have "takeWhile unitChar s2 \<noteq> [] \<and> r = dropWhile unitChar s2"
    by (auto simp: parseGroup_def Let_def dot_def s2_def split: if_splits option.splits)
  ultimately show ?thesis
    using s1 dropWhile_shorter [of unitChar s2] by simp
qed

text \<open>
  The loop over the groups. The running total \<open>d\<close> is a \<open>uint64\<close>: the sum wraps at
  \<open>2 ^ 64\<close> before it is compared with \<open>2 ^ 63\<close>.
\<close>

function parseGroups :: "nat \<Rightarrow> string \<Rightarrow> error + nat" where
  "parseGroups d s =
     (if s = [] then Inr d
      else case parseGroup s of
        Inl e \<Rightarrow> Inl e
      | Inr (v, r) \<Rightarrow>
          if (d + v) mod 2 ^ 64 > 2 ^ 63 then Inl invalidDuration
          else parseGroups ((d + v) mod 2 ^ 64) r)"
  by pat_completeness auto
termination
  by (relation "measure (\<lambda>(d, s). length s)") (auto dest: parseGroup_shorter)

declare parseGroups.simps [simp del]

definition ParseDuration :: "string \<Rightarrow> Duration \<times> error option" where
  "ParseDuration orig =
     (let neg = (orig \<noteq> [] \<and> hd orig = CHR ''-'');
          s = (if orig \<noteq> [] \<and> (hd orig = CHR ''-'' \<or> hd orig = CHR ''+'') then tl orig else orig)
      in if s = ''0'' then (0, None)
         else if s = [] then (0, Some invalidDuration)
         else case parseGroups 0 s of
           Inl e \<Rightarrow> (0, Some e)
         | Inr d \<Rightarrow>
             if neg then (- int d, None)
             else if d > 2 ^ 63 - 1 then (0, Some invalidDuration)
             else (int d, None))"

section \<open>The backend registry and the shared store\<close>

text \<open>
  A parsed \<open>*url.URL\<close>; the balancer only ever observes the text its \<open>String\<close> method
  renders.
\<close>

datatype url = Url (URL_String: string)

record Backend =
  URL :: url

definition NewBackend :: "url \<Rightarrow> Backend" where
  "NewBackend u = \<lparr>URL = u\<rparr>"

text \<open>
  The Redis client. A hash is an association list of fields and values with distinct
  fields; its order is the order in which a \<open>range\<close> over the map returned by \<open>HGetAll\<close>
  visits the entries, which the Go runtime is free to choose. A client whose \<open>fault\<close> is set
  fails every command with that error. The error of a write does not tell what the server
  did: the flag beside the error says whether the command had reached the server (the
  reply was lost) or not.
\<close>

record redis =
  fault :: "(error \<times> bool) option"
  hashes :: "string \<Rightarrow> (string \<times> string) list"

definition HSet :: "redis \<Rightarrow> string \<Rightarrow> string \<Rightarrow> string \<Rightarrow> error option \<times> redis" where
  "HSet c key field v =
     (case fault c of
        Some (e, delivered) \<Rightarrow>
          (Some e,
           if delivered
           then c\<lparr>hashes := (hashes c)(key := AList.update field v (hashes c key))\<rparr>
           else c)
      | None \<Rightarrow> (None, c\<lparr>hashes := (hashes c)(key := AList.update field v (hashes c key))\<rparr>))"

definition HGetAll :: "redis \<Rightarrow> string \<Rightarrow> error + (string \<times> string) list" where
  "HGetAll c key = (case fault c of Some (e, delivered) \<Rightarrow> Inl e | None \<Rightarrow> Inr (hashes c key))"

record LoadBalancer =
  backends :: "Backend list"
  rdb :: redis

section \<open>AddBackend\<close>

text \<open>
  \<open>url.Parse\<close> is the standard library's and is a parameter. The result is the error
  returned (if any) and the balancer after the call.
\<close>

definition AddBackend ::
  "(string \<Rightarrow> error + url) \<Rightarrow> LoadBalancer \<Rightarrow> string \<Rightarrow> error option \<times> LoadBalancer" where
  "AddBackend url_Parse lb urlStr =
     (case url_Parse urlStr of
        Inl err \<Rightarrow> (Some err, lb)
      | Inr u \<Rightarrow>
          let newBackend = NewBackend u;
              lb1 = lb\<lparr>backends := backends lb @ [newBackend]\<rparr>;
              res = HSet (rdb lb1) ''backends'' urlStr ''0''
          in (case fst res of
                Some e \<Rightarrow> (Some e, lb1\<lparr>rdb := snd res\<rparr>)
              | None \<Rightarrow> (None, lb1\<lparr>rdb := snd res\<rparr>)))"

section \<open>NextBackend\<close>

text \<open>
  The scan of the latency snapshot (the first \<open>for\<close> of \<open>NextBackend\<close>): the state is the
  pair of \<open>minResponseTime\<close> and \<open>selectedBackendURL\<close>. The error of \<open>time.ParseDuration\<close>
  is discarded and the duration it returns is used.
\<close>

fun scanResponseTimes :: "(string \<times> string) list \<Rightarrow> rat \<times> string \<Rightarrow> rat \<times> string" where
  "scanResponseTimes [] st = st"
| "scanResponseTimes ((urlStr, responseTimeStr) # rest) (minResponseTime, selectedBackendURL) =
     (let responseTime = fst (ParseDuration responseTimeStr)
      in if Seconds responseTime < minResponseTime
         then scanResponseTimes rest (Seconds responseTime, urlStr)
         else scanResponseTimes rest (minResponseTime, selectedBackendURL))"

text \<open>The second \<open>for\<close>: the first backend of the registry whose URL renders as the selected one.\<close>

fun findBackend :: "Backend list \<Rightarrow> string \<Rightarrow> error + Backend" where
  "findBackend [] selectedBackendURL = Inl (errors_New ''backend not found'')"
| "findBackend (b # bs) selectedBackendURL =
     (if URL_String (URL b) = selectedBackendURL then Inr b
      else findBackend bs selectedBackendURL)"

definition NextBackend :: "LoadBalancer \<Rightarrow> error + Backend" where
  "NextBackend lb =
     (if length (backends lb) = 0 then Inl (errors_New ''no backends available'')
      else case HGetAll (rdb lb) ''backends'' of
        Inl err \<Rightarrow> Inl err
      | Inr responseTimes \<Rightarrow>
          let selectedBackendURL =
                snd (scanResponseTimes responseTimes (9223372036854775807, ''''))
          in if selectedBackendURL = '''' then Inl (errors_New ''no backend selected'')
             else findBackend (backends lb) selectedBackendURL)"

section \<open>The rate limiter\<close>

record MethodRateLimiter =
  rate :: rat
  burst :: int
  tokens :: "string \<rightharpoonup> rat"
  last_time :: "string \<rightharpoonup> Time"
  methods :: "string \<rightharpoonup> bool"

record requestBody =
  Method :: string

definition NewMethodRateLimiter :: "rat \<Rightarrow> int \<Rightarrow> MethodRateLimiter" where
  "NewMethodRateLimiter rt bst =
     \<lparr>rate = rt,
      burst = bst,
      tokens = Map.empty,
      last_time = Map.empty,
      methods = map_of
        [(''eth_getChainId'', True),
         (''eth_getBlockNumber'', True),
         (''eth_getBlockByNumber'', True),
         (''eth_getBlockReceipts'', True),
         (''eth_getTransactionReceipt'', True)]\<rparr>"

text \<open>Reading a \<open>map[string]bool\<close> at a missing key gives \<open>false\<close>.\<close>

definition limited :: "MethodRateLimiter \<Rightarrow> string \<Rightarrow> bool" where
  "limited mrl m = (case methods mrl m of Some b \<Rightarrow> b | None \<Rightarrow> False)"

text \<open>
  The part of an \<open>*http.Request\<close> that \<open>Allow\<close> looks at: the value of the query parameter
  \<open>Id\<close> (empty when the parameter is absent) and the body, a reader that either holds the
  bytes still to be read or fails with an error.
\<close>

datatype body = Reader string | Failing error

record Request =
  Query_Id :: string
  Body :: body

definition ReadAll :: "body \<Rightarrow> (string \<times> error option) \<times> body" where
  "ReadAll rd = (case rd of
      Reader bytes \<Rightarrow> ((bytes, None), Reader [])
    | Failing e \<Rightarrow> (([], Some e), Failing e))"

text \<open>
  The refill of a bucket (\<open>elapsed\<close>, the addition and the cap at \<open>burst\<close>), from the stored
  count, the stored time and the current time.
\<close>

definition refill :: "MethodRateLimiter \<Rightarrow> rat \<Rightarrow> Time \<Rightarrow> Time \<Rightarrow> rat" where
  "refill mrl tokens0 last0 now =
     (let elapsed = Seconds (Sub now last0);
          tokens1 = tokens0 + elapsed * rate mrl
      in if tokens1 > of_int (burst mrl) then of_int (burst mrl) else tokens1)"

text \<open>
  \<open>Allow\<close>. \<open>json.Unmarshal\<close> into a \<open>requestBody\<close> is a parameter, and so is the reading
  of the clock. The result is the pair the source returns, the limiter and the request
  after the call.
\<close>

definition Allow ::
  "(string \<Rightarrow> error + requestBody) \<Rightarrow> Time \<Rightarrow> MethodRateLimiter \<Rightarrow> Request \<Rightarrow>
     (bool \<times> error option) \<times> MethodRateLimiter \<times> Request" where
  "Allow json_Unmarshal now mrl r =
     (let nodeId = Query_Id r
      in if nodeId = [] then ((True, None), mrl, r)
         else case ReadAll (Body r) of
           ((bytes, Some err), rest) \<Rightarrow> ((False, Some err), mrl, r\<lparr>Body := rest\<rparr>)
         | ((bytes, None), rest) \<Rightarrow>
             (case json_Unmarshal bytes of
                Inl err \<Rightarrow> ((False, Some err), mrl, r\<lparr>Body := Reader bytes\<rparr>)
              | Inr reqBody \<Rightarrow>
                  if \<not> limited mrl (Method reqBody)
                  then ((True, None), mrl, r\<lparr>Body := Reader bytes\<rparr>)
                  else
                    (let rateLimitKey = nodeId @ ''-'' @ Method reqBody
                     in case (tokens mrl rateLimitKey, last_time mrl rateLimitKey) of
                          (Some tokens0, Some last0) \<Rightarrow>
                            if refill mrl tokens0 last0 now < 1
                            then ((False, None), mrl, r\<lparr>Body := Reader bytes\<rparr>)
                            else ((True, None),
                                  mrl\<lparr>tokens := (tokens mrl)(rateLimitKey \<mapsto> refill mrl tokens0 last0 now - 1),
                                      last_time := (last_time mrl)(rateLimitKey \<mapsto> now)\<rparr>,
                                  r\<lparr>Body := Reader bytes\<rparr>)
                        | _ \<Rightarrow>
                            ((True, None),
                             mrl\<lparr>tokens := (tokens mrl)(rateLimitKey \<mapsto> of_int (burst mrl) - 1),
                                 last_time := (last_time mrl)(rateLimitKey \<mapsto> now)\<rparr>,
                             r\<lparr>Body := Reader bytes\<rparr>))))"

text \<open>A sequence of calls, each with the reading of the clock at its time; the results in order.\<close>

fun AllowAll ::
  "(string \<Rightarrow> error + requestBody) \<Rightarrow> MethodRateLimiter \<Rightarrow> (Time \<times> Request) list \<Rightarrow>
     (bool \<times> error option) list \<times> MethodRateLimiter" where
  "AllowAll json_Unmarshal mrl [] = ([], mrl)"
| "AllowAll json_Unmarshal mrl ((now, r) # calls) =
     (let res = Allow json_Unmarshal now mrl r;
          rest = AllowAll json_Unmarshal (fst (snd res)) calls
      in (fst res # fst rest, snd rest))"

section \<open>The handler of main\<close>

text \<open>
  The function registered for every path: what it answers itself, or the request it hands
  to the balancer's \<open>ServeHTTP\<close>.
\<close>

datatype response = http_Error string nat | ServeHTTP Request

definition StatusInternalServerError :: nat where
  "StatusInternalServerError = 500"

definition StatusTooManyRequests :: nat where
  "StatusTooManyRequests = 429"

definition handler ::
  "(string \<Rightarrow> error + requestBody) \<Rightarrow> Time \<Rightarrow> MethodRateLimiter \<Rightarrow> Request \<Rightarrow>
     response \<times> MethodRateLimiter" where
  "handler json_Unmarshal now mrl r =
     (let res = Allow json_Unmarshal now mrl r;
          allowed = fst (fst res);
          err = snd (fst res);
          mrl' = fst (snd res);
          r' = snd (snd res)
      in if err \<noteq> None
         then (http_Error ''Error checking rate limit'' StatusInternalServerError, mrl')
         else if \<not> allowed
         then (http_Error ''Rate limit exceeded or request body too large'' StatusTooManyRequests, mrl')
         else (ServeHTTP r', mrl'))"

section \<open>Sample inputs\<close>

text \<open>
  A balancer whose registry holds a backend for each of the given URLs, in that order, and
  whose store is reachable and holds the given snapshot under \<open>backends\<close>.
\<close>

definition balancerWith :: "string list \<Rightarrow> (string \<times> string) list \<Rightarrow> LoadBalancer" where
  "balancerWith urls rts =
     \<lparr>backends = map (\<lambda>u. NewBackend (Url u)) urls,
      rdb = \<lparr>fault = None, hashes = (\<lambda>key. if key = ''backends'' then rts else [])\<rparr>\<rparr>"

text \<open>
  The request body \<open>{"method":"eth_getChainId"}\<close>, and a decoder that agrees with
  \<open>json.Unmarshal\<close> on that body and on the bodies that are not JSON at all; it is only
  applied to those.
\<close>

definition sampleJSON :: string where
  "sampleJSON = ''{'' @ [CHR 0x22] @ ''method'' @ [CHR 0x22] @ '':'' @ [CHR 0x22] @
     ''eth_getChainId'' @ [CHR 0x22] @ ''}''"

definition sampleUnmarshal :: "string \<Rightarrow> error + requestBody" where
  "sampleUnmarshal bytes =
     (if bytes = sampleJSON then Inr \<lparr>Method = ''eth_getChainId''\<rparr>
      else Inl (json_error ''invalid character''))"

definition sampleRequest :: Request where
  "sampleRequest = \<lparr>Query_Id = ''node1'', Body = Reader sampleJSON\<rparr>"


text \<open>A limiter whose only bucket, the sample request's, was emptied at time 0.\<close>

definition drainedLimiter :: MethodRateLimiter where
  "drainedLimiter = (NewMethodRateLimiter 10 60)
     \<lparr>tokens := [''node1-eth_getChainId'' \<mapsto> 0],
      last_time := [''node1-eth_getChainId'' \<mapsto> 0]\<rparr>"


section \<open>Facts about the parser\<close>

lemmas ParseDuration_eval =
  ParseDuration_def parseGroups.simps parseGroup_def isDigit_def digitVal_def
  unitChar_def unitMap_def Let_def

lemma ParseDuration_5ms: "ParseDuration ''5ms'' = (5000000, None)"
  by (simp add: ParseDuration_eval)

lemma ParseDuration_10ms: "ParseDuration ''10ms'' = (10000000, None)"
  by (simp add: ParseDuration_eval)

lemma ParseDuration_20ms: "ParseDuration ''20ms'' = (20000000, None)"
  by (simp add: ParseDuration_eval)

lemma ParseDuration_garbage: "ParseDuration ''garbage'' = (0, Some invalidDuration)"
  by (simp add: ParseDuration_eval)

lemma ParseDuration_zero: "ParseDuration ''0'' = (0, None)"
  by (simp add: ParseDuration_def)

lemma ParseDuration_error_zero:
  "snd (ParseDuration s) \<noteq> None \<Longrightarrow> fst (ParseDuration s) = 0"
  by (auto simp: ParseDuration_def Let_def split: if_splits sum.splits)

section \<open>Facts about the selection\<close>

lemma findBackend_mem:
  "findBackend bs u = Inr b \<Longrightarrow> b \<in> set bs \<and> URL_String (URL b) = u"
  by (induction bs) (auto split: if_splits)

lemma scan_bounds:
  "scanResponseTimes rts (m, sel) = (m', sel') \<Longrightarrow>
     m' \<le> m \<and> (\<forall>(k, v) \<in> set rts. m' \<le> Seconds (fst (ParseDuration v))) \<and>
     ((m' = m \<and> sel' = sel) \<or>
      (m' < m \<and> (\<exists>v. (sel', v) \<in> set rts \<and> Seconds (fst (ParseDuration v)) = m')))"
proof (induction rts arbitrary: m sel)
  case Nil
  then show ?case by simp
next
  case (Cons e rts)
  obtain k v where e: "e = (k, v)" by (cases e)
  show ?case
  proof (cases "Seconds (fst (ParseDuration v)) < m")
    case True
    with Cons.prems e have "scanResponseTimes rts (Seconds (fst (ParseDuration v)), k) = (m', sel')"
      by simp
    from Cons.IH [OF this] True e show ?thesis by fastforce
  next
    case False
    with Cons.prems e have "scanResponseTimes rts (m, sel) = (m', sel')"
      by simp
    from Cons.IH [OF this] False e show ?thesis by fastforce
  qed
qed

section \<open>Facts about the rate limiter\<close>

lemma Sub_same: "Sub now now = 0"
  by (simp add: Sub_def minDuration_def maxDuration_def)


lemma refill_same_instant:
  "t0 \<le> of_int (burst mrl) \<Longrightarrow> refill mrl t0 now now = t0"
  by (simp add: refill_def Let_def Sub_same Seconds_def)

lemma Allow_new_bucket:
  assumes "Query_Id r \<noteq> []" and "Body r = Reader bytes" and "um bytes = Inr rb"
    and "limited mrl (Method rb)"
    and "tokens mrl (Query_Id r @ ''-'' @ Method rb) = None \<or>
         last_time mrl (Query_Id r @ ''-'' @ Method rb) = None"
  shows "Allow um now mrl r =
    ((True, None),
     mrl\<lparr>tokens := (tokens mrl)(Query_Id r @ ''-'' @ Method rb \<mapsto> of_int (burst mrl) - 1),
         last_time := (last_time mrl)(Query_Id r @ ''-'' @ Method rb \<mapsto> now)\<rparr>,
     r\<lparr>Body := Reader bytes\<rparr>)"
  using assms by (auto simp: Allow_def ReadAll_def Let_def split: option.splits)

lemma Allow_old_bucket:
  assumes "Query_Id r \<noteq> []" and "Body r = Reader bytes" and "um bytes = Inr rb"
    and "limited mrl (Method rb)"
    and "tokens mrl (Query_Id r @ ''-'' @ Method rb) = Some t0"
    and "last_time mrl (Query_Id r @ ''-'' @ Method rb) = Some l0"
  shows "Allow um now mrl r =
    (if refill mrl t0 l0 now < 1 then ((False, None), mrl, r\<lparr>Body := Reader bytes\<rparr>)
     else ((True, None),
       mrl\<lparr>tokens := (tokens mrl)(Query_Id r @ ''-'' @ Method rb \<mapsto> refill mrl t0 l0 now - 1),
           last_time := (last_time mrl)(Query_Id r @ ''-'' @ Method rb \<mapsto> now)\<rparr>,
       r\<lparr>Body := Reader bytes\<rparr>))"
  using assms by (simp add: Allow_def ReadAll_def Let_def)

lemma Allow_denied_state:
  "fst (fst (Allow um now mrl r)) = False \<Longrightarrow> fst (snd (Allow um now mrl r)) = mrl"
  by (auto simp: Allow_def ReadAll_def Let_def split: if_splits body.splits sum.splits option.splits)





lemma AllowAll_append:
  "AllowAll um mrl (xs @ ys) =
     (fst (AllowAll um mrl xs) @ fst (AllowAll um (snd (AllowAll um mrl xs)) ys),
      snd (AllowAll um (snd (AllowAll um mrl xs)) ys))"
  by (induction xs arbitrary: mrl) (auto simp: Let_def)

lemma AllowAll_drain:
  assumes "Query_Id r \<noteq> []" and "Body r = Reader bytes" and "um bytes = Inr rb"
  shows "limited mrl (Method rb) \<Longrightarrow>
     tokens mrl (Query_Id r @ ''-'' @ Method rb) = Some (of_nat n) \<Longrightarrow>
     last_time mrl (Query_Id r @ ''-'' @ Method rb) = Some now \<Longrightarrow>
     int n \<le> burst mrl \<Longrightarrow> k \<le> n \<Longrightarrow>
     fst (AllowAll um mrl (replicate k (now, r))) = replicate k (True, None) \<and>
     tokens (snd (AllowAll um mrl (replicate k (now, r)))) (Query_Id r @ ''-'' @ Method rb)
       = Some (of_nat (n - k)) \<and>
     last_time (snd (AllowAll um mrl (replicate k (now, r)))) (Query_Id r @ ''-'' @ Method rb)
       = Some now \<and>
     burst (snd (AllowAll um mrl (replicate k (now, r)))) = burst mrl \<and>
     limited (snd (AllowAll um mrl (replicate k (now, r)))) (Method rb)"
proof (induction k arbitrary: mrl n)
  case 0
  then show ?case by simp
next
  case (Suc k)
  let ?key = "Query_Id r @ ''-'' @ Method rb"
  let ?mrl1 = "mrl\<lparr>tokens := (tokens mrl)(?key \<mapsto> of_nat n - 1),
                    last_time := (last_time mrl)(?key \<mapsto> now)\<rparr>"
  from Suc.prems have n: "1 \<le> n" by simp
  have le: "(of_nat n :: rat) \<le> of_int (burst mrl)"
    using Suc.prems(4) by (metis of_int_le_iff of_int_of_nat_eq)
  have rf: "refill mrl (of_nat n) now now = of_nat n"
    using le by (rule refill_same_instant)
  have a: "Allow um now mrl r = ((True, None), ?mrl1, r\<lparr>Body := Reader bytes\<rparr>)"
    using Allow_old_bucket [where r = r and um = um and bytes = bytes and rb = rb
        and mrl = mrl and ?t0.0 = "of_nat n" and ?l0.0 = now and now = now]
      assms Suc.prems(1,2,3) rf n
    by simp
  have t1: "tokens ?mrl1 ?key = Some (of_nat (n - 1))"
    using n by (simp add: of_nat_diff)
  have "fst (AllowAll um ?mrl1 (replicate k (now, r))) = replicate k (True, None) \<and>
     tokens (snd (AllowAll um ?mrl1 (replicate k (now, r)))) ?key = Some (of_nat (n - 1 - k)) \<and>
     last_time (snd (AllowAll um ?mrl1 (replicate k (now, r)))) ?key = Some now \<and>
     burst (snd (AllowAll um ?mrl1 (replicate k (now, r)))) = burst ?mrl1 \<and>
     limited (snd (AllowAll um ?mrl1 (replicate k (now, r)))) (Method rb)"
  proof (rule Suc.IH)
    show "limited ?mrl1 (Method rb)" using Suc.prems(1) by (simp add: limited_def)
    show "tokens ?mrl1 ?key = Some (of_nat (n - 1))" by (rule t1)
    show "last_time ?mrl1 ?key = Some now" by simp
    show "int (n - 1) \<le> burst ?mrl1" using Suc.prems(4) by simp
    show "k \<le> n - 1" using Suc.prems(5) by simp
  qed
  then show ?case by (simp add: a Let_def)
qed

section \<open>The selection: claims\<close>

text \<open>
  C4. When the registry's backend sequence is empty, \<open>NextBackend\<close> fails with the error
  \<open>no backends available\<close> and returns no backend, whatever the store holds (it is not
  even read).
\<close>

theorem NextBackend_empty_registry:
  "backends lb = [] \<Longrightarrow> NextBackend lb = Inl (errors_New ''no backends available'')"
  by (simp add: NextBackend_def)

theorem NextBackend_empty_registry_witness:
  "NextBackend (balancerWith [] [(''http://a:5001'', ''5ms'')])
     = Inl (errors_New ''no backends available'')"
proof -
  have "backends (balancerWith [] [(''http://a:5001'', ''5ms'')]) = []"
    by (simp add: balancerWith_def)
  from NextBackend_empty_registry [OF this] show ?thesis .
qed

text \<open>
  C6. For a non-empty registry and any snapshot, a backend returned by \<open>NextBackend\<close> is an
  element of the registry's backend sequence.
\<close>

theorem NextBackend_in_registry:
  "backends lb \<noteq> [] \<Longrightarrow> NextBackend lb = Inr b \<Longrightarrow> b \<in> set (backends lb)"
  by (auto simp: NextBackend_def Let_def split: if_splits sum.splits dest: findBackend_mem)

lemma sample_selection:
  "NextBackend (balancerWith [''http://a:5001'', ''http://b:5002'']
       [(''http://a:5001'', ''10ms''), (''http://b:5002'', ''5ms'')])
     = Inr (NewBackend (Url ''http://b:5002''))"
  by (simp add: NextBackend_def balancerWith_def HGetAll_def NewBackend_def Seconds_def
      ParseDuration_5ms ParseDuration_10ms)

theorem NextBackend_in_registry_witness:
  "NewBackend (Url ''http://b:5002'')
     \<in> set (backends (balancerWith [''http://a:5001'', ''http://b:5002'']
         [(''http://a:5001'', ''10ms''), (''http://b:5002'', ''5ms'')]))"
proof -
  have "backends (balancerWith [''http://a:5001'', ''http://b:5002'']
         [(''http://a:5001'', ''10ms''), (''http://b:5002'', ''5ms'')]) \<noteq> []"
    by (simp add: balancerWith_def)
  from NextBackend_in_registry [OF this sample_selection] show ?thesis .
qed

text \<open>
  C1, as stated, fails: an entry whose value does not parse is not skipped. With the
  backends \<open>a\<close> (10ms) and \<open>b\<close> (a value that is no duration) in the store, \<open>NextBackend\<close>
  selects \<open>b\<close>, in either order of the snapshot.
\<close>

theorem unparsed_entry_is_selected:
  "snd (ParseDuration ''garbage'') \<noteq> None \<and>
   NextBackend (balancerWith [''http://a:5001'', ''http://b:5002'']
       [(''http://a:5001'', ''10ms''), (''http://b:5002'', ''garbage'')])
     = Inr (NewBackend (Url ''http://b:5002'')) \<and>
   NextBackend (balancerWith [''http://a:5001'', ''http://b:5002'']
       [(''http://b:5002'', ''garbage''), (''http://a:5001'', ''10ms'')])
     = Inr (NewBackend (Url ''http://b:5002''))"
  by (simp add: NextBackend_def balancerWith_def HGetAll_def NewBackend_def Seconds_def
      ParseDuration_garbage ParseDuration_10ms)

text \<open>
  C1, amended. An entry whose value fails to parse takes part in the scan with the
  duration 0 that \<open>time.ParseDuration\<close> returns beside the error: it becomes the selected
  candidate whenever the minimum so far is positive, and the scan goes on with the
  remaining entries.
\<close>

theorem unparsed_entry_scanned_as_zero:
  "snd (ParseDuration v) \<noteq> None \<Longrightarrow>
   scanResponseTimes ((k, v) # rest) (m, sel) =
     scanResponseTimes rest (if 0 < m then (0, k) else (m, sel))"
  by (simp add: ParseDuration_error_zero Seconds_def)

theorem unparsed_entry_scanned_as_zero_witness:
  "scanResponseTimes ((''http://b:5002'', ''garbage'') # [(''http://a:5001'', ''10ms'')])
       (1 / 100, ''http://c:5003'') =
     scanResponseTimes [(''http://a:5001'', ''10ms'')]
       (if 0 < (1 / 100 :: rat) then (0, ''http://b:5002'') else (1 / 100, ''http://c:5003''))"
proof -
  have "snd (ParseDuration ''garbage'') \<noteq> None"
    by (simp add: ParseDuration_garbage)
  from unparsed_entry_scanned_as_zero [OF this] show ?thesis .
qed

text \<open>
  C5. With exactly three backends in the registry, whose store entries parse to 10ms, 5ms
  and 20ms, \<open>NextBackend\<close> returns the backend of the 5ms entry, in whatever order the
  snapshot lists the three entries. The three backends have the store's fields as their
  URLs (so these differ), and the URL of the second is not empty.
\<close>

theorem NextBackend_three_backends:
  assumes regs: "backends lb = [b1, b2, b3]"
    and urls: "URL_String (URL b1) = u1" "URL_String (URL b2) = u2" "URL_String (URL b3) = u3"
    and dist: "distinct [u1, u2, u3]" and nonempty: "u2 \<noteq> []"
    and up: "fault (rdb lb) = None"
    and store: "set (hashes (rdb lb) ''backends'') = {(u1, v1), (u2, v2), (u3, v3)}"
    and lat: "ParseDuration v1 = (10000000, None)" "ParseDuration v2 = (5000000, None)"
             "ParseDuration v3 = (20000000, None)"
  shows "NextBackend lb = Inr b2"
proof -
  define rts where "rts = hashes (rdb lb) ''backends''"
  obtain m' sel' where sc: "scanResponseTimes rts (9223372036854775807, []) = (m', sel')"
    by (cases "scanResponseTimes rts (9223372036854775807, [])")
  note b = scan_bounds [OF sc]
  have in2: "(u2, v2) \<in> set rts" using store by (simp add: rts_def)
  with b have le: "m' \<le> Seconds (fst (ParseDuration v2))" by fastforce
  then have small: "m' \<le> 1 / 200" by (simp add: lat Seconds_def)
  with b obtain v where v: "(sel', v) \<in> set rts" "Seconds (fst (ParseDuration v)) = m'"
    by auto
  from v(1) store have "(sel', v) = (u1, v1) \<or> (sel', v) = (u2, v2) \<or> (sel', v) = (u3, v3)"
    by (simp add: rts_def)
  with v(2) small have sel: "sel' = u2"
    by (auto simp: lat Seconds_def)
  have "findBackend (backends lb) u2 = Inr b2"
    using regs urls dist by simp
  with sc sel nonempty up regs show ?thesis
    by (simp add: NextBackend_def HGetAll_def rts_def)
qed

theorem NextBackend_three_backends_witness:
  "NextBackend (balancerWith [''http://a:5001'', ''http://b:5002'', ''http://c:5003'']
       [(''http://c:5003'', ''20ms''), (''http://a:5001'', ''10ms''), (''http://b:5002'', ''5ms'')])
     = Inr (NewBackend (Url ''http://b:5002''))"
  by (rule NextBackend_three_backends
        [where ?u1.0 = "''http://a:5001''" and ?u3.0 = "''http://c:5003''"
           and ?v1.0 = "''10ms''" and ?v2.0 = "''5ms''" and ?v3.0 = "''20ms''"
           and ?b1.0 = "NewBackend (Url ''http://a:5001'')"
           and ?b3.0 = "NewBackend (Url ''http://c:5003'')"])
     (auto simp: balancerWith_def NewBackend_def ParseDuration_5ms ParseDuration_10ms
        ParseDuration_20ms)

section \<open>Registration: claims\<close>

text \<open>
  C10, as stated, fails in its last part: after a store-write error the store may well
  hold a latency record for the backend. It does when the field was in the hash before
  the call (first case below), and when the write reached the server and only its reply
  was lost (second case).
\<close>

theorem AddBackend_error_store_has_record:
  "fst (AddBackend (\<lambda>s. Inr (Url s))
       \<lparr>backends = [NewBackend (Url ''http://a:5001'')],
        rdb = \<lparr>fault = Some (redis_error ''connection refused'', False),
               hashes = (\<lambda>key. if key = ''backends'' then [(''http://b:5002'', ''5ms'')] else [])\<rparr>\<rparr>
       ''http://b:5002'')
     = Some (redis_error ''connection refused'') \<and>
   map_of (hashes (rdb (snd (AddBackend (\<lambda>s. Inr (Url s))
       \<lparr>backends = [NewBackend (Url ''http://a:5001'')],
        rdb = \<lparr>fault = Some (redis_error ''connection refused'', False),
               hashes = (\<lambda>key. if key = ''backends'' then [(''http://b:5002'', ''5ms'')] else [])\<rparr>\<rparr>
       ''http://b:5002''))) ''backends'') ''http://b:5002''
     = Some ''5ms'' \<and>
   fst (AddBackend (\<lambda>s. Inr (Url s))
       \<lparr>backends = [NewBackend (Url ''http://a:5001'')],
        rdb = \<lparr>fault = Some (redis_error ''i/o timeout'', True), hashes = (\<lambda>key. [])\<rparr>\<rparr>
       ''http://b:5002'')
     = Some (redis_error ''i/o timeout'') \<and>
   map_of (hashes (rdb (snd (AddBackend (\<lambda>s. Inr (Url s))
       \<lparr>backends = [NewBackend (Url ''http://a:5001'')],
        rdb = \<lparr>fault = Some (redis_error ''i/o timeout'', True), hashes = (\<lambda>key. [])\<rparr>\<rparr>
       ''http://b:5002''))) ''backends'') ''http://b:5002''
     = Some ''0''"
  by (simp add: AddBackend_def HSet_def Let_def)

text \<open>
  C10, amended. \<open>AddBackend\<close> appends the new backend before it writes to the store:
  when the URL parses and the call returns an error, that error is the one of the store
  write, and the registry holds the old sequence followed by the new backend (the
  registry is changed on the error path too). Nothing is said of the store's record for
  the backend.
\<close>

theorem AddBackend_store_error:
  assumes "url_Parse urlStr = Inr u"
    and "fst (AddBackend url_Parse lb urlStr) = Some e"
  shows "backends (snd (AddBackend url_Parse lb urlStr)) = backends lb @ [NewBackend u] \<and>
         fst (HSet (rdb lb) ''backends'' urlStr ''0'') = Some e"
  using assms
  by (auto simp: AddBackend_def Let_def split: option.splits)

theorem AddBackend_store_error_witness:
  "backends (snd (AddBackend (\<lambda>s. Inr (Url s))
       \<lparr>backends = [NewBackend (Url ''http://a:5001'')],
        rdb = \<lparr>fault = Some (redis_error ''connection refused'', False), hashes = (\<lambda>key. [])\<rparr>\<rparr>
       ''http://b:5002''))
     = [NewBackend (Url ''http://a:5001''), NewBackend (Url ''http://b:5002'')]"
proof -
  let ?lb = "\<lparr>backends = [NewBackend (Url ''http://a:5001'')],
        rdb = \<lparr>fault = Some (redis_error ''connection refused'', False), hashes = (\<lambda>key. [])\<rparr>\<rparr>"
  have p: "(\<lambda>s. Inr (Url s)) ''http://b:5002'' = (Inr (Url ''http://b:5002'') :: error + url)"
    by simp
  have e: "fst (AddBackend (\<lambda>s. Inr (Url s)) ?lb ''http://b:5002'')
             = Some (redis_error ''connection refused'')"
    by (simp add: AddBackend_def HSet_def Let_def)
  from AddBackend_store_error [OF p e] show ?thesis by simp
qed

section \<open>The rate limiter: claims\<close>

lemma replicate_61: "replicate 61 x = x # replicate 59 x @ [x]"
  by (simp add: eval_nat_numeral replicate_append_same)

text \<open>
  C2. With rate 10 and burst 60, for a request with a non-empty client identity and a
  limited method: of 61 calls of \<open>Allow\<close> for it at one instant, on a fresh limiter, the
  first 60 are admitted and the 61st is denied.
\<close>

theorem burst_of_sixty:
  assumes "Query_Id r \<noteq> []" and "Body r = Reader bytes" and "um bytes = Inr rb"
    and "limited (NewMethodRateLimiter 10 60) (Method rb)"
  shows "fst (AllowAll um (NewMethodRateLimiter 10 60) (replicate 61 (now, r)))
           = replicate 60 (True, None) @ [(False, None)]"
proof -
  let ?key = "Query_Id r @ ''-'' @ Method rb"
  let ?m0 = "NewMethodRateLimiter 10 60"
  let ?m1 = "?m0\<lparr>tokens := (tokens ?m0)(?key \<mapsto> of_int (burst ?m0) - 1),
                  last_time := (last_time ?m0)(?key \<mapsto> now)\<rparr>"
  let ?m2 = "snd (AllowAll um ?m1 (replicate 59 (now, r)))"
  have first: "Allow um now ?m0 r = ((True, None), ?m1, r\<lparr>Body := Reader bytes\<rparr>)"
    using Allow_new_bucket [where r = r and um = um and bytes = bytes and rb = rb
        and mrl = "NewMethodRateLimiter 10 60" and now = now] assms
    by (simp add: NewMethodRateLimiter_def)
  have lim1: "limited ?m1 (Method rb)"
    using assms(4) by (simp add: limited_def)
  have tok1: "tokens ?m1 ?key = Some (of_nat 59)"
    by (simp add: NewMethodRateLimiter_def)
  have last1: "last_time ?m1 ?key = Some now"
    by simp
  have b1: "int 59 \<le> burst ?m1"
    by (simp add: NewMethodRateLimiter_def)
  have d: "fst (AllowAll um ?m1 (replicate 59 (now, r))) = replicate 59 (True, None) \<and>
     tokens ?m2 ?key = Some (of_nat (59 - 59)) \<and>
     last_time ?m2 ?key = Some now \<and>
     burst ?m2 = burst ?m1 \<and>
     limited ?m2 (Method rb)"
    using AllowAll_drain [where r = r and um = um and bytes = bytes and rb = rb
        and mrl = ?m1 and n = 59 and now = now and k = 59]
      assms(1,2,3) lim1 tok1 last1 b1
    by blast
  have res2: "fst (AllowAll um ?m1 (replicate 59 (now, r))) = replicate 59 (True, None)"
    using d by simp
  have tok2: "tokens ?m2 ?key = Some 0" using d by simp
  have last2: "last_time ?m2 ?key = Some now" using d by simp
  have lim2: "limited ?m2 (Method rb)" using d by simp
  have b2: "burst ?m2 = 60" using d by (simp add: NewMethodRateLimiter_def)
  have "(0::rat) \<le> of_int (burst ?m2)"
    by (simp only: b2)
  then have "refill ?m2 0 now now = 0"
    by (rule refill_same_instant)
  then have last: "fst (Allow um now ?m2 r) = (False, None)"
    using Allow_old_bucket [where r = r and um = um and bytes = bytes and rb = rb
        and mrl = ?m2 and ?t0.0 = 0 and ?l0.0 = now and now = now]
      assms(1,2,3) lim2 tok2 last2
    by simp
  have "fst (AllowAll um ?m0 (replicate 61 (now, r)))
          = (True, None) # replicate 59 (True, None) @ [(False, None)]"
    by (simp only: replicate_61 AllowAll.simps Let_def first fst_conv snd_conv AllowAll_append res2 last)
  also have "\<dots> = replicate 60 (True, None) @ [(False, None)]"
    by (simp add: eval_nat_numeral)
  finally show ?thesis .
qed

lemma sample_limited:
  "Query_Id sampleRequest \<noteq> [] \<and> Body sampleRequest = Reader sampleJSON \<and>
   sampleUnmarshal sampleJSON = Inr \<lparr>Method = ''eth_getChainId''\<rparr> \<and>
   limited (NewMethodRateLimiter rt bst) (Method \<lparr>Method = ''eth_getChainId''\<rparr>)"
  by (simp add: sampleRequest_def sampleUnmarshal_def limited_def NewMethodRateLimiter_def)

theorem burst_of_sixty_witness:
  "fst (AllowAll sampleUnmarshal (NewMethodRateLimiter 10 60) (replicate 61 (7, sampleRequest)))
     = replicate 60 (True, None) @ [(False, None)]"
  using burst_of_sixty [where r = sampleRequest and um = sampleUnmarshal and bytes = sampleJSON
      and rb = "\<lparr>Method = ''eth_getChainId''\<rparr>" and now = 7]
    sample_limited [of 10 60]
  by blast






text \<open>
  C7. A request whose client identity is empty or absent is admitted with no error,
  whatever its body (it is not read) and whatever the limiter holds (it is neither read
  nor changed); so is every request of any sequence of such requests.
\<close>

theorem Allow_without_identity:
  "(Query_Id r = [] \<longrightarrow> Allow um now mrl r = ((True, None), mrl, r)) \<and>
   ((\<forall>c \<in> set calls. Query_Id (snd c) = []) \<longrightarrow>
      AllowAll um mrl calls = (replicate (length calls) (True, None), mrl))"
proof
  show "Query_Id r = [] \<longrightarrow> Allow um now mrl r = ((True, None), mrl, r)"
    by (simp add: Allow_def)
  show "(\<forall>c \<in> set calls. Query_Id (snd c) = []) \<longrightarrow>
      AllowAll um mrl calls = (replicate (length calls) (True, None), mrl)"
    by (induction calls) (auto simp: Allow_def Let_def)
qed

theorem Allow_without_identity_witness:
  "Allow sampleUnmarshal 7 (NewMethodRateLimiter 10 60)
       \<lparr>Query_Id = [], Body = Failing (io_error ''unexpected EOF'')\<rparr>
     = ((True, None), NewMethodRateLimiter 10 60,
        \<lparr>Query_Id = [], Body = Failing (io_error ''unexpected EOF'')\<rparr>) \<and>
   AllowAll sampleUnmarshal (NewMethodRateLimiter 10 60)
       [(7, \<lparr>Query_Id = [], Body = Reader sampleJSON\<rparr>),
        (7, \<lparr>Query_Id = [], Body = Reader ''not json''\<rparr>)]
     = (replicate (length [(7 :: Time, \<lparr>Query_Id = [], Body = Reader sampleJSON\<rparr>),
                           (7, \<lparr>Query_Id = [], Body = Reader ''not json''\<rparr>)]) (True, None),
        NewMethodRateLimiter 10 60)"
  using Allow_without_identity
    [of "\<lparr>Query_Id = [], Body = Failing (io_error ''unexpected EOF'')\<rparr>"
        sampleUnmarshal 7 "NewMethodRateLimiter 10 60"
        "[(7, \<lparr>Query_Id = [], Body = Reader sampleJSON\<rparr>),
          (7, \<lparr>Query_Id = [], Body = Reader ''not json''\<rparr>)]"]
  by simp

text \<open>
  C8. A call of \<open>Allow\<close> that does not admit leaves the limiter as it was, stored token
  counts and last-refill times included; and when the request's bucket exists and its
  refilled count is below 1, the call is such a denial.
\<close>

theorem Allow_denied_unchanged:
  "(fst (fst (Allow um now mrl r)) = False \<longrightarrow> fst (snd (Allow um now mrl r)) = mrl) \<and>
   (Query_Id r \<noteq> [] \<and> Body r = Reader bytes \<and> um bytes = Inr rb \<and>
    limited mrl (Method rb) \<and>
    tokens mrl (Query_Id r @ ''-'' @ Method rb) = Some t0 \<and>
    last_time mrl (Query_Id r @ ''-'' @ Method rb) = Some l0 \<and>
    refill mrl t0 l0 now < 1
      \<longrightarrow> Allow um now mrl r = ((False, None), mrl, r\<lparr>Body := Reader bytes\<rparr>))"
proof
  show "fst (fst (Allow um now mrl r)) = False \<longrightarrow> fst (snd (Allow um now mrl r)) = mrl"
    by (simp add: Allow_denied_state)
  show "Query_Id r \<noteq> [] \<and> Body r = Reader bytes \<and> um bytes = Inr rb \<and>
    limited mrl (Method rb) \<and>
    tokens mrl (Query_Id r @ ''-'' @ Method rb) = Some t0 \<and>
    last_time mrl (Query_Id r @ ''-'' @ Method rb) = Some l0 \<and>
    refill mrl t0 l0 now < 1
      \<longrightarrow> Allow um now mrl r = ((False, None), mrl, r\<lparr>Body := Reader bytes\<rparr>)"
    using Allow_old_bucket [where r = r and um = um and bytes = bytes and rb = rb
        and mrl = mrl and ?t0.0 = t0 and ?l0.0 = l0 and now = now]
    by simp
qed

lemma drained_sample:
  "Query_Id sampleRequest \<noteq> [] \<and> Body sampleRequest = Reader sampleJSON \<and>
   sampleUnmarshal sampleJSON = Inr \<lparr>Method = ''eth_getChainId''\<rparr> \<and>
   limited drainedLimiter (Method \<lparr>Method = ''eth_getChainId''\<rparr>) \<and>
   tokens drainedLimiter (Query_Id sampleRequest @ ''-'' @ Method \<lparr>Method = ''eth_getChainId''\<rparr>)
     = Some 0 \<and>
   last_time drainedLimiter (Query_Id sampleRequest @ ''-'' @ Method \<lparr>Method = ''eth_getChainId''\<rparr>)
     = Some 0 \<and>
   refill drainedLimiter 0 0 50000000 < 1"
  by (simp add: sampleRequest_def sampleUnmarshal_def drainedLimiter_def limited_def
      NewMethodRateLimiter_def refill_def Seconds_def Sub_def minDuration_def maxDuration_def)

theorem Allow_denied_unchanged_witness:
  "Allow sampleUnmarshal 50000000 drainedLimiter sampleRequest
     = ((False, None), drainedLimiter, sampleRequest\<lparr>Body := Reader sampleJSON\<rparr>) \<and>
   fst (snd (Allow sampleUnmarshal 50000000 drainedLimiter sampleRequest)) = drainedLimiter"
proof -
  note t = Allow_denied_unchanged [of sampleUnmarshal 50000000 drainedLimiter sampleRequest
      sampleJSON "\<lparr>Method = ''eth_getChainId''\<rparr>" 0 0]
  from t drained_sample
  have a: "Allow sampleUnmarshal 50000000 drainedLimiter sampleRequest
     = ((False, None), drainedLimiter, sampleRequest\<lparr>Body := Reader sampleJSON\<rparr>)"
    by blast
  then have "fst (fst (Allow sampleUnmarshal 50000000 drainedLimiter sampleRequest)) = False"
    by simp
  with t have "fst (snd (Allow sampleUnmarshal 50000000 drainedLimiter sampleRequest)) = drainedLimiter"
    by blast
  with a show ?thesis by blast
qed

text \<open>
  C9. For a request with a non-empty client identity whose body cannot be read, or whose
  bytes \<open>json.Unmarshal\<close> rejects, \<open>Allow\<close> returns that error (with \<open>false\<close>, and the
  limiter untouched), which is not the denial \<open>(false, nil)\<close>; the handler answers it with
  status 500, not with 429.
\<close>

theorem Allow_malformed_body:
  assumes "Query_Id r \<noteq> []"
    and "Body r = Failing e \<or> (Body r = Reader bytes \<and> um bytes = Inl e)"
  shows "fst (Allow um now mrl r) = (False, Some e) \<and>
         fst (Allow um now mrl r) \<noteq> (False, None) \<and>
         handler um now mrl r = (http_Error ''Error checking rate limit'' 500, mrl) \<and>
         StatusTooManyRequests \<noteq> 500"
  using assms
  by (auto simp: handler_def Allow_def ReadAll_def Let_def StatusInternalServerError_def
      StatusTooManyRequests_def)

theorem Allow_malformed_body_witness:
  "handler sampleUnmarshal 7 (NewMethodRateLimiter 10 60)
       \<lparr>Query_Id = ''node1'', Body = Failing (io_error ''unexpected EOF'')\<rparr>
     = (http_Error ''Error checking rate limit'' 500, NewMethodRateLimiter 10 60) \<and>
   handler sampleUnmarshal 7 (NewMethodRateLimiter 10 60)
       \<lparr>Query_Id = ''node1'', Body = Reader []\<rparr>
     = (http_Error ''Error checking rate limit'' 500, NewMethodRateLimiter 10 60)"
proof -
  have u: "sampleUnmarshal [] = Inl (json_error ''invalid character'')"
    by (simp add: sampleUnmarshal_def sampleJSON_def)
  have "handler sampleUnmarshal 7 (NewMethodRateLimiter 10 60)
       \<lparr>Query_Id = ''node1'', Body = Failing (io_error ''unexpected EOF'')\<rparr>
     = (http_Error ''Error checking rate limit'' 500, NewMethodRateLimiter 10 60)"
    using Allow_malformed_body
      [where r = "\<lparr>Query_Id = ''node1'', Body = Failing (io_error ''unexpected EOF'')\<rparr>"
         and e = "io_error ''unexpected EOF''" and um = sampleUnmarshal and now = 7
         and mrl = "NewMethodRateLimiter 10 60" and bytes = "[]"]
    by simp
  moreover have "handler sampleUnmarshal 7 (NewMethodRateLimiter 10 60)
       \<lparr>Query_Id = ''node1'', Body = Reader []\<rparr>
     = (http_Error ''Error checking rate limit'' 500, NewMethodRateLimiter 10 60)"
    using u Allow_malformed_body
      [where r = "\<lparr>Query_Id = ''node1'', Body = Reader []\<rparr>"
         and e = "json_error ''invalid character''" and um = sampleUnmarshal and now = 7
         and mrl = "NewMethodRateLimiter 10 60" and bytes = "[]"]
    by simp
  ultimately show ?thesis by blast
qed

end
